theory Spec2Isabelle
  imports Complex_Main "HOL-Library.Word"
begin

unbundle bit_operations_syntax

section \<open>Strings and character classes\<close>

text \<open>
  A Go string is modelled by the sequence of its Unicode code points, which is what
  \<^verbatim>\<open>strings.Split(s, "")\<close> cuts a valid UTF-8 string into. A code point is a natural
  number; \<open>+=\<close> on strings is list append.
\<close>

type_synonym rune = nat
type_synonym gostring = "rune list"

definition CTUpper :: gostring where
  "CTUpper = map of_char ''ABCDEFGHIJKLMNOPQRSTUVWXYZ''"

definition CTLower :: gostring where
  "CTLower = map of_char ''abcdefghijklmnopqrstuvwxyz''"

definition CTDigits :: gostring where
  "CTDigits = map of_char ''0123456789''"

definition CTAmbiguous :: gostring where
  "CTAmbiguous = map of_char ''0O1Il5S''"

definition CTSymbols :: gostring where
  "CTSymbols = map of_char ''!#%)*+,-.:=>?@]^_}~''"

text \<open>\<^verbatim>\<open>" \t"\<close>: the space and the horizontal tab.\<close>

definition CTWhiteSpace :: gostring where
  "CTWhiteSpace = map of_char [CHR '' '', CHR 0x09]"

text \<open>
  Modelled from the spec: \<^verbatim>\<open>subtractString\<close>, called by \<^verbatim>\<open>buildCharacterList\<close> and
  not part of the source files at hand. The spec (Alphabet Resolver, steps 4 and 5) has it
  compute the character-wise set difference \<open>included - excluded\<close>, every character of
  \<open>excluded\<close> being removed however often it was added, and then keep each distinct
  character exactly once, in some deterministic order.
\<close>

definition subtractString :: "gostring \<Rightarrow> gostring \<Rightarrow> gostring" where
  "subtractString src exclude = remdups (filter (\<lambda>c. c \<notin> set exclude) src)"

text \<open>
  \<^verbatim>\<open>strings.Split(alphabet, "")\<close> of the Go standard library: one string of length 1 for
  each character, and the empty slice for the empty string.
\<close>

definition strings_Split_empty_sep :: "gostring \<Rightarrow> gostring list" where
  "strings_Split_empty_sep s = map (\<lambda>c. [c]) s"

text \<open>
  Go's \<^verbatim>\<open>range\<close> over a map visits every entry exactly once, in an order that the
  language leaves open. The loops below take the order of the visit as an argument:
  \<open>rangeOrder m kvs\<close> says that \<open>kvs\<close> is one possible order of the entries of \<open>m\<close>.
\<close>

definition rangeOrder :: "('k \<times> 'v) list \<Rightarrow> ('k \<times> 'v) list \<Rightarrow> bool" where
  "rangeOrder m kvs \<longleftrightarrow> distinct kvs \<and> set kvs = set m"

section \<open>Passwords, errors, the random source\<close>

text \<open>
  Modelled from the spec: the declarations of \<^verbatim>\<open>Token\<close>, \<^verbatim>\<open>AtomTokenType\<close> and
  \<^verbatim>\<open>Password\<close> are not part of the source files at hand. The spec has a Token be one
  unit of output tagged as an atom, other kinds (word tokens) being reserved, and a
  Password be the ordered tokens with the entropy in bits. The source builds a token as
  \<^verbatim>\<open>Token{c, AtomTokenType}\<close>, without naming the two fields (\<open>Value\<close> and \<open>Kind\<close>
  here), and fills \<^verbatim>\<open>p.Tokens\<close> and \<^verbatim>\<open>p.Entropy\<close>; the latter field is
  \<open>EntropyBits\<close> here, to keep it apart from the method \<^verbatim>\<open>Entropy\<close>. The
  \<^verbatim>\<open>float32\<close> entropy is the real number that the \<^verbatim>\<open>float32\<close> stands for.
\<close>

datatype TokenType = AtomTokenType | WordTokenType

record Token =
  Value :: gostring
  Kind :: TokenType

record Password =
  Tokens :: "Token list"
  EntropyBits :: real

text \<open>
  \<^verbatim>\<open>Generate\<close> returns \<^verbatim>\<open>fmt.Errorf("don't ask for passwords of length %d", r.Length)\<close>
  when the length is below 1: the error \<open>InvalidLength\<close>, carrying the length. A run-time
  panic (an index out of range, a sampler that does not return) is \<open>Panic\<close>.
\<close>

datatype error = InvalidLength int | Panic

text \<open>
  \<^verbatim>\<open>Int31n\<close> is not part of the source files at hand and is taken as a parameter: a
  sampler \<open>S\<close> gives, for the \<open>i\<close>-th iteration of the loop of \<^verbatim>\<open>Generate\<close> and the
  bound handed to \<^verbatim>\<open>Int31n\<close>, the index that the call returns, or \<open>None\<close> when the call
  does not return an index. Every sequence of draws is some \<open>S\<close>. The spec's contract of
  the sampler is \<open>uniformIndex\<close>: for a positive bound it returns an index below the bound.
\<close>

type_synonym sampler = "nat \<Rightarrow> 32 word \<Rightarrow> 32 word option"

definition uniformIndex :: "sampler \<Rightarrow> bool" where
  "uniformIndex S \<longleftrightarrow> (\<forall>i n. n \<noteq> 0 \<longrightarrow> (\<exists>k. S i n = Some k \<and> k < n))"

text \<open>
  Modelled from the spec: \<^verbatim>\<open>entropySimple\<close>, called by \<^verbatim>\<open>Entropy\<close> and not part of
  the source files at hand. The spec (Entropy Estimator, baseline formula) has the entropy
  of \<open>length\<close> draws from \<open>n\<close> characters be \<open>length \<times> log2(n)\<close>, taken here as the
  real number; the rounding to a \<^verbatim>\<open>float32\<close> is done by \<^verbatim>\<open>Entropy\<close>, which calls
  it. The formula has no value at \<open>n = 0\<close>; no result below depends on what
  \<open>entropySimple\<close> is there.
\<close>

definition entropySimple :: "int \<Rightarrow> nat \<Rightarrow> real" where
  "entropySimple len nelem = real_of_int len * log 2 (real nelem)"

text \<open>
  Go's conversion \<^verbatim>\<open>float32(x)\<close>: the nearest number with a significand of 24 bits,
  a tie going to the even significand. \<open>roundEven\<close> rounds to the nearest integer in
  that way, and \<open>float32 x\<close> rounds \<open>x\<close> at the place of its last significant bit.
  The exponent is not bounded here, infinities and subnormal numbers being left out: the
  entropy of a non-empty alphabet and a 64-bit length is 0 or has a magnitude between 1
  and \<open>2 ^ 68\<close>, well within the normal range of a \<^verbatim>\<open>float32\<close>.
\<close>

definition roundEven :: "real \<Rightarrow> int" where
  "roundEven y =
     (let f = \<lfloor>y\<rfloor> in
      if y - of_int f < 1 / 2 then f
      else if 1 / 2 < y - of_int f then f + 1
      else if even f then f else f + 1)"

definition float32 :: "real \<Rightarrow> real" where
  "float32 x =
     (if x = 0 then 0
      else let ulp = 2 powr (of_int \<lfloor>log 2 \<bar>x\<bar>\<rfloor> - 23)
           in ulp * of_int (roundEven (x / ulp)))"

text \<open>
  The loop of \<^verbatim>\<open>Generate\<close>, shared by both variants of the file: for \<open>i\<close> from 0 up to
  the length, \<^verbatim>\<open>c := chars[Int31n(uint32(len(chars)))]\<close> and
  \<^verbatim>\<open>toks[i] = Token{c, AtomTokenType}\<close>. The argument is the list of the values of
  \<open>i\<close> still to run; the tokens come out in the order of \<open>i\<close>. Indexing a slice out
  of range panics.
\<close>

fun drawTokens :: "sampler \<Rightarrow> gostring list \<Rightarrow> nat list \<Rightarrow> error + Token list" where
  "drawTokens S chars [] = Inr []"
| "drawTokens S chars (i # is) =
     (case S i (of_nat (length chars)) of
        None \<Rightarrow> Inl Panic
      | Some k \<Rightarrow>
          if unat k < length chars
          then (case drawTokens S chars is of
                  Inl e \<Rightarrow> Inl e
                | Inr toks \<Rightarrow> Inr (\<lparr>Value = chars ! unat k, Kind = AtomTokenType\<rparr> # toks))
          else Inl Panic)"

section \<open>The variant with one inclusion state per class (char\_gen.go)\<close>

text \<open>\<^verbatim>\<open>type CharInclusion int\<close>, with the four constants numbered by \<^verbatim>\<open>iota\<close>.\<close>

type_synonym CharInclusion = int

definition CIUnstated :: CharInclusion where "CIUnstated = 0"
definition CIAllow :: CharInclusion where "CIAllow = 1"
definition CIRequire :: CharInclusion where "CIRequire = 2"
definition CIExclude :: CharInclusion where "CIExclude = 3"

record CharRecipe =
  Length :: int
  Uppers :: CharInclusion
  Lowers :: CharInclusion
  Digits :: CharInclusion
  Symbols :: CharInclusion
  Ambiguous :: CharInclusion
  ExcludeExtra :: gostring
  IncludeExtra :: gostring

text \<open>
  The keys of \<^verbatim>\<open>fieldNamesAlphabets\<close> are the names of the five fields of type
  \<^verbatim>\<open>CharInclusion\<close>; \<^verbatim>\<open>v.FieldByName(fname)\<close> reads the field of that name. The
  names are a closed type here, so that reading a field always succeeds, as it does for
  each key of the map.
\<close>

datatype FieldName = F_Uppers | F_Lowers | F_Digits | F_Symbols | F_Ambiguous

definition fieldNamesAlphabets :: "(FieldName \<times> gostring) list" where
  "fieldNamesAlphabets =
     [(F_Uppers, CTUpper), (F_Lowers, CTLower), (F_Digits, CTDigits),
      (F_Symbols, CTSymbols), (F_Ambiguous, CTAmbiguous)]"

fun FieldByName :: "CharRecipe \<Rightarrow> FieldName \<Rightarrow> CharInclusion" where
  "FieldByName r F_Uppers = Uppers r"
| "FieldByName r F_Lowers = Lowers r"
| "FieldByName r F_Digits = Digits r"
| "FieldByName r F_Symbols = Symbols r"
| "FieldByName r F_Ambiguous = Ambiguous r"

text \<open>
  The body of the loop of \<^verbatim>\<open>buildCharacterList\<close>: the \<^verbatim>\<open>switch\<close> on the state of the
  field, \<^verbatim>\<open>CIRequire\<close> falling through to \<^verbatim>\<open>CIAllow\<close>. The \<^verbatim>\<open>default\<close> case prints a
  message and changes nothing.
\<close>

fun switchInclusion ::
  "CharRecipe \<Rightarrow> FieldName \<times> gostring \<Rightarrow> gostring \<times> gostring \<Rightarrow> gostring \<times> gostring" where
  "switchInclusion r (fname, s) (ab, exclude) =
     (let f = FieldByName r fname in
      if f = CIRequire then (ab @ s, exclude)
      else if f = CIAllow then (ab @ s, exclude)
      else if f = CIExclude then (ab, exclude @ s)
      else if f = CIUnstated then (ab, exclude)
      else (ab, exclude))"

fun rangeFields ::
  "CharRecipe \<Rightarrow> (FieldName \<times> gostring) list \<Rightarrow> gostring \<times> gostring \<Rightarrow> gostring \<times> gostring" where
  "rangeFields r [] acc = acc"
| "rangeFields r (kv # kvs) acc = rangeFields r kvs (switchInclusion r kv acc)"

definition buildCharacterList :: "(FieldName \<times> gostring) list \<Rightarrow> CharRecipe \<Rightarrow> gostring list" where
  "buildCharacterList kvs r =
     (case rangeFields r kvs (IncludeExtra r, ExcludeExtra r) of
        (ab, exclude) \<Rightarrow> strings_Split_empty_sep (subtractString ab exclude))"

text \<open>
  \<^verbatim>\<open>Entropy\<close> has one result, a \<^verbatim>\<open>float32\<close>, and no error:
  \<^verbatim>\<open>float32(entropySimple(r.Length, size))\<close>.
\<close>

definition Entropy :: "(FieldName \<times> gostring) list \<Rightarrow> CharRecipe \<Rightarrow> real" where
  "Entropy kvs r = float32 (entropySimple (Length r) (length (buildCharacterList kvs r)))"

text \<open>
  \<^verbatim>\<open>Generate\<close>: \<open>kvs\<close> is the order of the map in its own call of
  \<^verbatim>\<open>buildCharacterList\<close>, \<open>kvs'\<close> the order in the call that \<^verbatim>\<open>Entropy\<close> makes.
\<close>

definition Generate ::
  "(FieldName \<times> gostring) list \<Rightarrow> (FieldName \<times> gostring) list \<Rightarrow> sampler \<Rightarrow> CharRecipe
     \<Rightarrow> error + Password" where
  "Generate kvs kvs' S r =
     (if Length r < 1 then Inl (InvalidLength (Length r))
      else
        let chars = buildCharacterList kvs r in
        case drawTokens S chars [0 ..< nat (Length r)] of
          Inl e \<Rightarrow> Inl e
        | Inr toks \<Rightarrow> Inr \<lparr>Tokens = toks, EntropyBits = Entropy kvs' r\<rparr>)"

definition NewCharRecipe :: "int \<Rightarrow> CharRecipe" where
  "NewCharRecipe len =
     \<lparr>Length = len, Uppers = CIAllow, Lowers = CIAllow, Digits = CIAllow, Symbols = CIAllow,
      Ambiguous = CIExclude, ExcludeExtra = [], IncludeExtra = []\<rparr>"

section \<open>The variant with flag sets (the second file)\<close>

text \<open>
  \<^verbatim>\<open>type CTFlag uint32\<close>. The flags \<^verbatim>\<open>Uppers\<close>, \<^verbatim>\<open>Lowers\<close>, ... are \<^verbatim>\<open>1 << iota\<close>;
  their names, and the names of the fields of this variant's \<^verbatim>\<open>CharRecipe\<close>, carry the
  suffix \<open>F\<close> to keep them apart from the first variant's.
\<close>

type_synonym CTFlag = "32 word"

definition UppersF :: CTFlag where "UppersF = push_bit 0 1"
definition LowersF :: CTFlag where "LowersF = push_bit 1 1"
definition DigitsF :: CTFlag where "DigitsF = push_bit 2 1"
definition SymbolsF :: CTFlag where "SymbolsF = push_bit 3 1"
definition AmbiguousF :: CTFlag where "AmbiguousF = push_bit 4 1"
definition WhiteSpaceF :: CTFlag where "WhiteSpaceF = push_bit 5 1"
definition LettersF :: CTFlag where "LettersF = UppersF OR LowersF"

definition charTypeByFlag :: "(CTFlag \<times> gostring) list" where
  "charTypeByFlag =
     [(UppersF, CTUpper), (LowersF, CTLower), (DigitsF, CTDigits),
      (SymbolsF, CTSymbols), (AmbiguousF, CTAmbiguous), (WhiteSpaceF, CTWhiteSpace)]"

record CharRecipeF =
  LengthF :: int
  Allow :: CTFlag
  Require :: CTFlag
  Exclude :: CTFlag
  ExcludeExtraF :: gostring
  IncludeExtraF :: gostring

text \<open>The body of the loop: three independent tests \<^verbatim>\<open>r.X&f == f\<close>.\<close>

fun testFlags ::
  "CharRecipeF \<Rightarrow> CTFlag \<times> gostring \<Rightarrow> gostring \<times> gostring \<Rightarrow> gostring \<times> gostring" where
  "testFlags r (f, ct) (ab, exclude) =
     (let ab1 = (if Allow r AND f = f then ab @ ct else ab);
          ab2 = (if Require r AND f = f then ab1 @ ct else ab1);
          exclude1 = (if Exclude r AND f = f then exclude @ ct else exclude)
      in (ab2, exclude1))"

fun rangeFlags ::
  "CharRecipeF \<Rightarrow> (CTFlag \<times> gostring) list \<Rightarrow> gostring \<times> gostring \<Rightarrow> gostring \<times> gostring" where
  "rangeFlags r [] acc = acc"
| "rangeFlags r (kv # kvs) acc = rangeFlags r kvs (testFlags r kv acc)"

definition buildCharacterListF :: "(CTFlag \<times> gostring) list \<Rightarrow> CharRecipeF \<Rightarrow> gostring list" where
  "buildCharacterListF kvs r =
     (case rangeFlags r kvs (IncludeExtraF r, ExcludeExtraF r) of
        (ab, exclude) \<Rightarrow> strings_Split_empty_sep (subtractString ab exclude))"

definition EntropyF :: "(CTFlag \<times> gostring) list \<Rightarrow> CharRecipeF \<Rightarrow> real" where
  "EntropyF kvs r = float32 (entropySimple (LengthF r) (length (buildCharacterListF kvs r)))"

definition GenerateF ::
  "(CTFlag \<times> gostring) list \<Rightarrow> (CTFlag \<times> gostring) list \<Rightarrow> sampler \<Rightarrow> CharRecipeF
     \<Rightarrow> error + Password" where
  "GenerateF kvs kvs' S r =
     (if LengthF r < 1 then Inl (InvalidLength (LengthF r))
      else
        let chars = buildCharacterListF kvs r in
        case drawTokens S chars [0 ..< nat (LengthF r)] of
          Inl e \<Rightarrow> Inl e
        | Inr toks \<Rightarrow> Inr \<lparr>Tokens = toks, EntropyBits = EntropyF kvs' r\<rparr>)"

definition NewCharRecipeF :: "int \<Rightarrow> CharRecipeF" where
  "NewCharRecipeF len =
     \<lparr>LengthF = len, Allow = LettersF OR DigitsF OR SymbolsF, Require = 0,
      Exclude = AmbiguousF, ExcludeExtraF = [], IncludeExtraF = []\<rparr>"

section \<open>What the policy admits\<close>

text \<open>
  The statements below compare the alphabet that the code builds with the policy of the
  recipe, read off the recipe and the tables directly. \<open>allowedChars\<close> collects the
  members of the classes in state Allow or Require, \<open>excludedChars\<close> those of the classes
  in state Exclude; \<open>admitted r c\<close> says that the character \<open>c\<close> is excluded by nothing
  and included by something.
\<close>

definition allowedChars :: "CharRecipe \<Rightarrow> (FieldName \<times> gostring) list \<Rightarrow> rune set" where
  "allowedChars r kvs =
     (\<Union>(fname, s) \<in> set kvs.
        if FieldByName r fname = CIAllow \<or> FieldByName r fname = CIRequire then set s else {})"

definition excludedChars :: "CharRecipe \<Rightarrow> (FieldName \<times> gostring) list \<Rightarrow> rune set" where
  "excludedChars r kvs =
     (\<Union>(fname, s) \<in> set kvs. if FieldByName r fname = CIExclude then set s else {})"

definition allowedCharsF :: "CharRecipeF \<Rightarrow> (CTFlag \<times> gostring) list \<Rightarrow> rune set" where
  "allowedCharsF r kvs =
     (\<Union>(f, ct) \<in> set kvs. if Allow r AND f = f \<or> Require r AND f = f then set ct else {})"

definition excludedCharsF :: "CharRecipeF \<Rightarrow> (CTFlag \<times> gostring) list \<Rightarrow> rune set" where
  "excludedCharsF r kvs =
     (\<Union>(f, ct) \<in> set kvs. if Exclude r AND f = f then set ct else {})"

definition admitted :: "CharRecipe \<Rightarrow> rune \<Rightarrow> bool" where
  "admitted r c \<longleftrightarrow>
     c \<notin> set (ExcludeExtra r) \<and>
     (\<forall>(fname, s) \<in> set fieldNamesAlphabets. FieldByName r fname = CIExclude \<longrightarrow> c \<notin> set s) \<and>
     (c \<in> set (IncludeExtra r) \<or>
      (\<exists>(fname, s) \<in> set fieldNamesAlphabets.
         (FieldByName r fname = CIAllow \<or> FieldByName r fname = CIRequire) \<and> c \<in> set s))"

definition admittedF :: "CharRecipeF \<Rightarrow> rune \<Rightarrow> bool" where
  "admittedF q c \<longleftrightarrow>
     c \<notin> set (ExcludeExtraF q) \<and>
     (\<forall>(f, ct) \<in> set charTypeByFlag. Exclude q AND f = f \<longrightarrow> c \<notin> set ct) \<and>
     (c \<in> set (IncludeExtraF q) \<or>
      (\<exists>(f, ct) \<in> set charTypeByFlag.
         (Allow q AND f = f \<or> Require q AND f = f) \<and> c \<in> set ct))"

text \<open>
  Writing a state into the field of a given name, to speak of changing the state of one
  class of a recipe.
\<close>

fun setField :: "CharRecipe \<Rightarrow> FieldName \<Rightarrow> CharInclusion \<Rightarrow> CharRecipe" where
  "setField r F_Uppers v = r\<lparr>Uppers := v\<rparr>"
| "setField r F_Lowers v = r\<lparr>Lowers := v\<rparr>"
| "setField r F_Digits v = r\<lparr>Digits := v\<rparr>"
| "setField r F_Symbols v = r\<lparr>Symbols := v\<rparr>"
| "setField r F_Ambiguous v = r\<lparr>Ambiguous := v\<rparr>"

text \<open>
  Corresponding recipes of the two variants: the same length and extra strings, and, for
  each of the five classes that both variants have, the class is in state Allow, Require
  or Exclude in the first variant exactly when its flag is set in the field \<open>Allow\<close>,
  \<open>Require\<close> or \<open>Exclude\<close> of the second. The first variant has no state for the class
  of white space, which is as much as leaving it unstated: its flag is set in no field of
  the second.
\<close>

definition classFlags :: "(FieldName \<times> CTFlag) list" where
  "classFlags =
     [(F_Uppers, UppersF), (F_Lowers, LowersF), (F_Digits, DigitsF), (F_Symbols, SymbolsF),
      (F_Ambiguous, AmbiguousF)]"

definition corresponds :: "CharRecipe \<Rightarrow> CharRecipeF \<Rightarrow> bool" where
  "corresponds r q \<longleftrightarrow>
     Length r = LengthF q \<and> IncludeExtra r = IncludeExtraF q \<and>
     ExcludeExtra r = ExcludeExtraF q \<and>
     (\<forall>(fname, f) \<in> set classFlags.
        (FieldByName r fname = CIAllow \<longleftrightarrow> Allow q AND f = f) \<and>
        (FieldByName r fname = CIRequire \<longleftrightarrow> Require q AND f = f) \<and>
        (FieldByName r fname = CIExclude \<longleftrightarrow> Exclude q AND f = f)) \<and>
     Allow q AND WhiteSpaceF \<noteq> WhiteSpaceF \<and>
     Require q AND WhiteSpaceF \<noteq> WhiteSpaceF \<and>
     Exclude q AND WhiteSpaceF \<noteq> WhiteSpaceF"

text \<open>
  The characters of a valid UTF-8 string are code points up to \<^verbatim>\<open>utf8.MaxRune\<close>, so
  that an alphabet without repetitions has a length that \<^verbatim>\<open>uint32(len(chars))\<close> keeps.
\<close>

definition utf8_MaxRune :: rune where
  "utf8_MaxRune = 0x10FFFF"

definition validRunes :: "gostring \<Rightarrow> bool" where
  "validRunes s \<longleftrightarrow> (\<forall>c \<in> set s. c \<le> utf8_MaxRune)"

text \<open>
  What a successful run of \<^verbatim>\<open>Generate\<close> owes: \<open>drawnFrom S len chars bits res\<close> says
  that \<open>res\<close> is a password of \<open>len\<close> tokens with entropy \<open>bits\<close>, whose \<open>i\<close>-th token
  is the atom of the character of \<open>chars\<close> at the index that the \<open>i\<close>-th draw returned.
\<close>

definition drawnFrom ::
  "sampler \<Rightarrow> int \<Rightarrow> gostring list \<Rightarrow> real \<Rightarrow> error + Password \<Rightarrow> bool" where
  "drawnFrom S len chars bits res \<longleftrightarrow>
     (\<exists>p. res = Inr p \<and> length (Tokens p) = nat len \<and> EntropyBits p = bits \<and>
        (\<forall>i < nat len. \<exists>k. S i (of_nat (length chars)) = Some k \<and> unat k < length chars \<and>
           Tokens p ! i = \<lparr>Value = chars ! unat k, Kind = AtomTokenType\<rparr>) \<and>
        (\<forall>t \<in> set (Tokens p). Kind t = AtomTokenType \<and> Value t \<in> set chars))"

section \<open>Recipes used as examples\<close>

text \<open>The default recipe with the digits required, in both variants.\<close>

definition digitsRequired :: CharRecipe where
  "digitsRequired = (NewCharRecipe 8)\<lparr>Digits := CIRequire\<rparr>"

definition digitsRequiredF :: CharRecipeF where
  "digitsRequiredF = (NewCharRecipeF 8)\<lparr>Require := DigitsF\<rparr>"

text \<open>
  The spec's scenario: length 4, every class unstated, \<open>IncludeExtra\<close> the euro sign
  (code point U+20AC, 8364); and the like recipe of the second variant.
\<close>

definition euroRecipe :: CharRecipe where
  "euroRecipe =
     \<lparr>Length = 4, Uppers = CIUnstated, Lowers = CIUnstated, Digits = CIUnstated,
      Symbols = CIUnstated, Ambiguous = CIUnstated, ExcludeExtra = [], IncludeExtra = [8364]\<rparr>"

definition euroRecipeF :: CharRecipeF where
  "euroRecipeF =
     \<lparr>LengthF = 4, Allow = 0, Require = 0, Exclude = 0, ExcludeExtraF = [],
      IncludeExtraF = [8364]\<rparr>"

text \<open>
  Recipes whose alphabet is empty: the ambiguous characters allowed while the upper-case
  letters, the lower-case letters and the digits, which hold them all, are excluded; and
  the spec's example for the flag sets, the digits both allowed and excluded.
\<close>

definition onlyAmbiguous :: CharRecipe where
  "onlyAmbiguous =
     \<lparr>Length = 8, Uppers = CIExclude, Lowers = CIExclude, Digits = CIExclude,
      Symbols = CIUnstated, Ambiguous = CIAllow, ExcludeExtra = [], IncludeExtra = []\<rparr>"

definition digitsAllowedExcluded :: CharRecipeF where
  "digitsAllowedExcluded =
     \<lparr>LengthF = 8, Allow = DigitsF, Require = 0, Exclude = DigitsF, ExcludeExtraF = [],
      IncludeExtraF = []\<rparr>"

text \<open>A recipe of length 1 whose alphabet is the three letters of \<open>IncludeExtra\<close>.\<close>

definition abcRecipe :: CharRecipe where
  "abcRecipe =
     \<lparr>Length = 1, Uppers = CIUnstated, Lowers = CIUnstated, Digits = CIUnstated,
      Symbols = CIUnstated, Ambiguous = CIUnstated, ExcludeExtra = [],
      IncludeExtra = [97, 98, 99]\<rparr>"

text \<open>A recipe of the second variant that allows white space and nothing else.\<close>

definition whiteSpaceAllowed :: CharRecipeF where
  "whiteSpaceAllowed =
     \<lparr>LengthF = 8, Allow = WhiteSpaceF, Require = 0, Exclude = 0, ExcludeExtraF = [],
      IncludeExtraF = []\<rparr>"

text \<open>A recipe of length 1 that allows the upper-case letters and requires a digit.\<close>

definition upperRequireDigit :: CharRecipe where
  "upperRequireDigit =
     \<lparr>Length = 1, Uppers = CIAllow, Lowers = CIUnstated, Digits = CIRequire,
      Symbols = CIUnstated, Ambiguous = CIUnstated, ExcludeExtra = [], IncludeExtra = []\<rparr>"

section \<open>The resolved alphabet as a set\<close>

lemmas CT_defs =
  CTUpper_def CTLower_def CTDigits_def CTAmbiguous_def CTSymbols_def CTWhiteSpace_def

lemmas CI_defs = CIUnstated_def CIAllow_def CIRequire_def CIExclude_def

lemmas Flag_defs =
  UppersF_def LowersF_def DigitsF_def SymbolsF_def AmbiguousF_def WhiteSpaceF_def LettersF_def

lemma rangeOrder_fieldNamesAlphabets: "rangeOrder fieldNamesAlphabets fieldNamesAlphabets"
  by (simp add: rangeOrder_def fieldNamesAlphabets_def)

lemma rangeOrder_charTypeByFlag: "rangeOrder charTypeByFlag charTypeByFlag"
  by (simp add: rangeOrder_def charTypeByFlag_def Flag_defs)

lemma rangeFields_sets:
  "rangeFields r kvs acc = (ab, exclude) \<Longrightarrow>
     set ab = set (fst acc) \<union> allowedChars r kvs \<and>
     set exclude = set (snd acc) \<union> excludedChars r kvs"
proof (induction kvs arbitrary: acc)
  case Nil
  then show ?case by (auto simp: allowedChars_def excludedChars_def)
next
  case (Cons kv kvs)
  obtain fname s where kv: "kv = (fname, s)" by (cases kv)
  obtain a e where acc: "acc = (a, e)" by (cases acc)
  from Cons.prems have "rangeFields r kvs (switchInclusion r kv acc) = (ab, exclude)" by simp
  from Cons.IH [OF this] show ?case
    by (auto simp: kv acc allowedChars_def excludedChars_def CI_defs Let_def split: if_splits)
qed

lemma rangeFlags_sets:
  "rangeFlags r kvs acc = (ab, exclude) \<Longrightarrow>
     set ab = set (fst acc) \<union> allowedCharsF r kvs \<and>
     set exclude = set (snd acc) \<union> excludedCharsF r kvs"
proof (induction kvs arbitrary: acc)
  case Nil
  then show ?case by (auto simp: allowedCharsF_def excludedCharsF_def)
next
  case (Cons kv kvs)
  obtain f ct where kv: "kv = (f, ct)" by (cases kv)
  obtain a e where acc: "acc = (a, e)" by (cases acc)
  from Cons.prems have "rangeFlags r kvs (testFlags r kv acc) = (ab, exclude)" by simp
  from Cons.IH [OF this] show ?case
    by (auto simp: kv acc allowedCharsF_def excludedCharsF_def Let_def split: if_splits)
qed

lemma set_subtractString: "set (subtractString src exclude) = set src - set exclude"
  by (auto simp: subtractString_def)

lemma set_buildCharacterList:
  "set (buildCharacterList kvs r) =
     (\<lambda>c. [c]) ` ((set (IncludeExtra r) \<union> allowedChars r kvs)
                  - (set (ExcludeExtra r) \<union> excludedChars r kvs))"
proof -
  obtain ab exclude where l: "rangeFields r kvs (IncludeExtra r, ExcludeExtra r) = (ab, exclude)"
    by (cases "rangeFields r kvs (IncludeExtra r, ExcludeExtra r)")
  from rangeFields_sets [OF l] show ?thesis
    by (simp add: buildCharacterList_def l strings_Split_empty_sep_def set_subtractString)
qed

lemma set_buildCharacterListF:
  "set (buildCharacterListF kvs r) =
     (\<lambda>c. [c]) ` ((set (IncludeExtraF r) \<union> allowedCharsF r kvs)
                  - (set (ExcludeExtraF r) \<union> excludedCharsF r kvs))"
proof -
  obtain ab exclude where l: "rangeFlags r kvs (IncludeExtraF r, ExcludeExtraF r) = (ab, exclude)"
    by (cases "rangeFlags r kvs (IncludeExtraF r, ExcludeExtraF r)")
  from rangeFlags_sets [OF l] show ?thesis
    by (simp add: buildCharacterListF_def l strings_Split_empty_sep_def set_subtractString)
qed

lemma rangeOrder_allowedChars:
  "rangeOrder m kvs \<Longrightarrow> allowedChars r kvs = allowedChars r m"
  "rangeOrder m kvs \<Longrightarrow> excludedChars r kvs = excludedChars r m"
  by (simp_all add: rangeOrder_def allowedChars_def excludedChars_def)

lemma rangeOrder_allowedCharsF:
  "rangeOrder m kvs \<Longrightarrow> allowedCharsF r kvs = allowedCharsF r m"
  "rangeOrder m kvs \<Longrightarrow> excludedCharsF r kvs = excludedCharsF r m"
  by (simp_all add: rangeOrder_def allowedCharsF_def excludedCharsF_def)

lemma admitted_iff:
  "admitted r c \<longleftrightarrow>
     c \<in> (set (IncludeExtra r) \<union> allowedChars r fieldNamesAlphabets)
         - (set (ExcludeExtra r) \<union> excludedChars r fieldNamesAlphabets)"
  unfolding admitted_def allowedChars_def excludedChars_def
  by (auto split: if_splits prod.splits) blast+

lemma admittedF_iff:
  "admittedF q c \<longleftrightarrow>
     c \<in> (set (IncludeExtraF q) \<union> allowedCharsF q charTypeByFlag)
         - (set (ExcludeExtraF q) \<union> excludedCharsF q charTypeByFlag)"
  unfolding admittedF_def allowedCharsF_def excludedCharsF_def
  by (auto split: if_splits prod.splits) blast+

lemma mem_buildCharacterList:
  "rangeOrder fieldNamesAlphabets kvs \<Longrightarrow>
     ch \<in> set (buildCharacterList kvs r) \<longleftrightarrow> (\<exists>c. ch = [c] \<and> admitted r c)"
  by (auto simp: set_buildCharacterList rangeOrder_allowedChars admitted_iff)

lemma mem_buildCharacterListF:
  "rangeOrder charTypeByFlag fvs \<Longrightarrow>
     ch \<in> set (buildCharacterListF fvs q) \<longleftrightarrow> (\<exists>c. ch = [c] \<and> admittedF q c)"
  by (auto simp: set_buildCharacterListF rangeOrder_allowedCharsF admittedF_iff)

lemma distinct_buildCharacterList: "distinct (buildCharacterList kvs r)"
  by (simp add: buildCharacterList_def strings_Split_empty_sep_def subtractString_def
      distinct_map inj_on_def split: prod.splits)

lemma distinct_buildCharacterListF: "distinct (buildCharacterListF kvs r)"
  by (simp add: buildCharacterListF_def strings_Split_empty_sep_def subtractString_def
      distinct_map inj_on_def split: prod.splits)

section \<open>Exclusion wins, and nothing enters unasked\<close>

text \<open>
  Claim C2. Whatever the order in which the classes are visited, every entry of the
  resolved alphabet is a single character that lies in no class in state Exclude and not
  in \<open>ExcludeExtra\<close>, and that lies in \<open>IncludeExtra\<close> or in a class in state Allow or
  Require: a character that is both included and excluded is left out. This holds for the
  variant with one state per class and for the variant with flag sets.
\<close>

theorem alphabet_respects_policy:
  assumes "rangeOrder fieldNamesAlphabets kvs" and "rangeOrder charTypeByFlag fvs"
  shows "(\<forall>ch \<in> set (buildCharacterList kvs r). \<exists>c. ch = [c] \<and> admitted r c) \<and>
         (\<forall>ch \<in> set (buildCharacterListF fvs q). \<exists>c. ch = [c] \<and> admittedF q c)"
  using assms by (simp add: mem_buildCharacterList mem_buildCharacterListF)

lemmas eval_defs =
  buildCharacterList_def buildCharacterListF_def fieldNamesAlphabets_def charTypeByFlag_def
  NewCharRecipe_def NewCharRecipeF_def CT_defs CI_defs Flag_defs subtractString_def
  strings_Split_empty_sep_def

lemma a_in_default_alphabet:
  "[97] \<in> set (buildCharacterList fieldNamesAlphabets (NewCharRecipe 8))"
  by (simp add: eval_defs)

lemma a_in_default_alphabetF:
  "[97] \<in> set (buildCharacterListF charTypeByFlag (NewCharRecipeF 8))"
  by (simp add: eval_defs)

theorem alphabet_respects_policy_witness:
  "rangeOrder fieldNamesAlphabets fieldNamesAlphabets \<and>
   rangeOrder charTypeByFlag charTypeByFlag \<and>
   [97] \<in> set (buildCharacterList fieldNamesAlphabets (NewCharRecipe 8)) \<and>
   admitted (NewCharRecipe 8) 97 \<and>
   [97] \<in> set (buildCharacterListF charTypeByFlag (NewCharRecipeF 8)) \<and>
   admittedF (NewCharRecipeF 8) 97"
  using alphabet_respects_policy [OF rangeOrder_fieldNamesAlphabets rangeOrder_charTypeByFlag,
      of "NewCharRecipe 8" "NewCharRecipeF 8"]
    rangeOrder_fieldNamesAlphabets rangeOrder_charTypeByFlag
    a_in_default_alphabet a_in_default_alphabetF
  by blast

section \<open>No duplicates\<close>

text \<open>
  Claim C5. The resolved alphabet holds each character once, whatever the recipe and
  whatever the order of the classes: classes that overlap (Ambiguous with Uppers, Lowers
  and Digits) and characters of \<open>IncludeExtra\<close> that a class brings too are kept once.
  Both variants end with \<open>subtractString\<close>, which removes the repetitions.
\<close>

theorem alphabet_no_duplicates:
  "distinct (buildCharacterList kvs r) \<and> distinct (buildCharacterListF fvs q)"
  by (simp add: distinct_buildCharacterList distinct_buildCharacterListF)

section \<open>Lengths below 1\<close>

text \<open>
  Claim C9. A recipe whose length is below 1, zero or negative, makes \<^verbatim>\<open>Generate\<close>
  return the error for an invalid length and no password, in both variants and before
  anything is drawn.
\<close>

theorem generate_rejects_short_length:
  "(Length r < 1 \<longrightarrow> Generate kvs kvs' S r = Inl (InvalidLength (Length r))) \<and>
   (LengthF q < 1 \<longrightarrow> GenerateF fvs fvs' S q = Inl (InvalidLength (LengthF q)))"
  by (simp add: Generate_def GenerateF_def)

theorem generate_rejects_short_length_witness:
  "Generate fieldNamesAlphabets fieldNamesAlphabets (\<lambda>i n. Some 0) (NewCharRecipe 0)
     = Inl (InvalidLength 0) \<and>
   GenerateF charTypeByFlag charTypeByFlag (\<lambda>i n. Some 0) (NewCharRecipeF (- 3))
     = Inl (InvalidLength (- 3))"
  using generate_rejects_short_length
    [of "NewCharRecipe 0" fieldNamesAlphabets fieldNamesAlphabets "\<lambda>i n. Some 0"
        "NewCharRecipeF (- 3)" charTypeByFlag charTypeByFlag]
  by (simp add: NewCharRecipe_def NewCharRecipeF_def)

section \<open>White space in the variant with one state per class\<close>

lemma whitespace_in_no_field_class:
  "c \<in> set CTWhiteSpace \<Longrightarrow>
     c \<notin> allowedChars r fieldNamesAlphabets \<and> c \<notin> excludedChars r fieldNamesAlphabets"
proof -
  assume "c \<in> set CTWhiteSpace"
  then have "c = 32 \<or> c = 9" by (simp add: CTWhiteSpace_def)
  then have "c \<notin> (\<Union>(fname, s) \<in> set fieldNamesAlphabets. set s)"
    by (elim disjE) (simp_all add: fieldNamesAlphabets_def CT_defs)
  moreover have "allowedChars r fieldNamesAlphabets \<subseteq> (\<Union>(fname, s) \<in> set fieldNamesAlphabets. set s)"
    "excludedChars r fieldNamesAlphabets \<subseteq> (\<Union>(fname, s) \<in> set fieldNamesAlphabets. set s)"
    unfolding allowedChars_def excludedChars_def by (auto split: if_splits)
  ultimately show ?thesis by blast
qed

text \<open>
  Claim C10. The recipe of the first variant has no state for the class of white space,
  and the map that the resolver visits has no entry for it. So the space and the tab are
  in the resolved alphabet exactly when they are in \<open>IncludeExtra\<close> and not in
  \<open>ExcludeExtra\<close>; no state of the five classes brings them in or takes them out.
\<close>

theorem whitespace_only_through_extras:
  assumes "rangeOrder fieldNamesAlphabets kvs" and "c \<in> set CTWhiteSpace"
  shows "[c] \<in> set (buildCharacterList kvs r) \<longleftrightarrow>
           c \<in> set (IncludeExtra r) \<and> c \<notin> set (ExcludeExtra r)"
  using whitespace_in_no_field_class [OF assms(2), of r]
  by (auto simp: set_buildCharacterList rangeOrder_allowedChars [OF assms(1)])

theorem whitespace_only_through_extras_witness:
  "rangeOrder fieldNamesAlphabets fieldNamesAlphabets \<and> 32 \<in> set CTWhiteSpace \<and>
   9 \<in> set CTWhiteSpace \<and>
   [32] \<in> set (buildCharacterList fieldNamesAlphabets ((NewCharRecipe 8)\<lparr>IncludeExtra := [32, 9], ExcludeExtra := [9]\<rparr>)) \<and>
   [9] \<notin> set (buildCharacterList fieldNamesAlphabets ((NewCharRecipe 8)\<lparr>IncludeExtra := [32, 9], ExcludeExtra := [9]\<rparr>))"
proof -
  have s: "32 \<in> set CTWhiteSpace" and t: "9 \<in> set CTWhiteSpace"
    by (simp_all add: CTWhiteSpace_def)
  show ?thesis
    using whitespace_only_through_extras [OF rangeOrder_fieldNamesAlphabets s,
        of "(NewCharRecipe 8)\<lparr>IncludeExtra := [32, 9], ExcludeExtra := [9]\<rparr>"]
      whitespace_only_through_extras [OF rangeOrder_fieldNamesAlphabets t,
        of "(NewCharRecipe 8)\<lparr>IncludeExtra := [32, 9], ExcludeExtra := [9]\<rparr>"]
      rangeOrder_fieldNamesAlphabets s t
    by simp
qed

section \<open>Require counts as Allow for membership\<close>

lemma FieldByName_setField:
  "FieldByName (setField r fname v) fname' = (if fname' = fname then v else FieldByName r fname')"
  by (cases fname; cases fname'; simp)

lemma extras_setField:
  "IncludeExtra (setField r fname v) = IncludeExtra r"
  "ExcludeExtra (setField r fname v) = ExcludeExtra r"
  by (cases fname; simp)+

lemma has_flag_iff_bit:
  fixes x :: "32 word"
  assumes "n < 32"
  shows "x AND 2 ^ n = 2 ^ n \<longleftrightarrow> bit x n"
proof
  assume h: "x AND 2 ^ n = 2 ^ n"
  have "bit (2 ^ n :: 32 word) n" using assms by (simp add: bit_simps)
  then have "bit (x AND 2 ^ n) n" by (simp only: h)
  then show "bit x n" by (simp add: bit_simps)
next
  assume "bit x n"
  then show "x AND 2 ^ n = 2 ^ n"
    by (intro bit_word_eqI) (auto simp: bit_simps)
qed

lemma flag_is_bit:
  assumes "(f, ct) \<in> set charTypeByFlag"
  shows "\<exists>n<32. f = 2 ^ n"
proof -
  from assms have "f = 1 \<or> f = 2 \<or> f = 4 \<or> f = 8 \<or> f = 16 \<or> f = 32"
    by (auto simp: charTypeByFlag_def Flag_defs)
  moreover have "(1::32 word) = 2 ^ 0" "(2::32 word) = 2 ^ 1" "(4::32 word) = 2 ^ 2"
    "(8::32 word) = 2 ^ 3" "(16::32 word) = 2 ^ 4" "(32::32 word) = 2 ^ 5"
    by simp_all
  moreover have "(0::nat) < 32" "(1::nat) < 32" "(2::nat) < 32" "(3::nat) < 32" "(4::nat) < 32"
    "(5::nat) < 32"
    by simp_all
  ultimately show ?thesis by metis
qed

lemma require_to_allow_flags:
  assumes f: "(f, ct) \<in> set charTypeByFlag" and g: "(g, ct') \<in> set charTypeByFlag"
    and req: "Require q AND f = f"
  shows "(Allow q OR f) AND g = g \<or> (Require q AND NOT f) AND g = g \<longleftrightarrow>
         Allow q AND g = g \<or> Require q AND g = g"
proof -
  from flag_is_bit [OF f] obtain n where n: "n < 32" "f = 2 ^ n" by blast
  from flag_is_bit [OF g] obtain m where m: "m < 32" "g = 2 ^ m" by blast
  from req n have "bit (Require q) n" by (simp add: has_flag_iff_bit)
  then show ?thesis
    using n(1) m(1) unfolding n(2) m(2)
    by (auto simp: has_flag_iff_bit bit_simps)
qed

lemma allowedCharsF_require_to_allow:
  assumes "(f, ct) \<in> set charTypeByFlag" and "Require q AND f = f"
  shows "allowedCharsF (q\<lparr>Require := Require q AND NOT f, Allow := Allow q OR f\<rparr>) charTypeByFlag
           = allowedCharsF q charTypeByFlag"
  unfolding allowedCharsF_def
  by (rule SUP_cong [OF refl]) (use require_to_allow_flags [OF assms(1) _ assms(2)] in auto)

text \<open>
  Claim C6. Changing the state of a class from Require to Allow leaves the resolved
  alphabet the same set of characters, whatever the order in which the classes are
  visited before and after. In the variant with flag sets the change clears the flag of
  the class in \<open>Require\<close> and sets it in \<open>Allow\<close>.
\<close>

theorem require_equals_allow_for_membership:
  assumes "rangeOrder fieldNamesAlphabets kvs" and "rangeOrder fieldNamesAlphabets kvs'"
    and "rangeOrder charTypeByFlag fvs" and "rangeOrder charTypeByFlag fvs'"
  shows "(FieldByName r fname = CIRequire \<longrightarrow>
            set (buildCharacterList kvs' (setField r fname CIAllow)) = set (buildCharacterList kvs r)) \<and>
         ((f, ct) \<in> set charTypeByFlag \<and> Require q AND f = f \<longrightarrow>
            set (buildCharacterListF fvs' (q\<lparr>Require := Require q AND NOT f, Allow := Allow q OR f\<rparr>))
              = set (buildCharacterListF fvs q))"
proof (intro conjI impI)
  assume req: "FieldByName r fname = CIRequire"
  have a: "FieldByName (setField r fname CIAllow) a = CIAllow \<or>
           FieldByName (setField r fname CIAllow) a = CIRequire \<longleftrightarrow>
           FieldByName r a = CIAllow \<or> FieldByName r a = CIRequire" for a
    using req by (cases "a = fname") (simp_all add: FieldByName_setField)
  have e: "FieldByName (setField r fname CIAllow) a = CIExclude \<longleftrightarrow>
           FieldByName r a = CIExclude" for a
    using req by (cases "a = fname") (simp_all add: FieldByName_setField CI_defs)
  have "allowedChars (setField r fname CIAllow) fieldNamesAlphabets = allowedChars r fieldNamesAlphabets"
    by (simp only: allowedChars_def a)
  moreover have "excludedChars (setField r fname CIAllow) fieldNamesAlphabets = excludedChars r fieldNamesAlphabets"
    by (simp only: excludedChars_def e)
  ultimately show "set (buildCharacterList kvs' (setField r fname CIAllow)) = set (buildCharacterList kvs r)"
    by (simp add: set_buildCharacterList rangeOrder_allowedChars [OF assms(1)]
        rangeOrder_allowedChars [OF assms(2)] extras_setField)
next
  assume h: "(f, ct) \<in> set charTypeByFlag \<and> Require q AND f = f"
  have "excludedCharsF (q\<lparr>Require := Require q AND NOT f, Allow := Allow q OR f\<rparr>) charTypeByFlag
           = excludedCharsF q charTypeByFlag"
    by (simp add: excludedCharsF_def)
  with allowedCharsF_require_to_allow [of f ct q] h
  show "set (buildCharacterListF fvs' (q\<lparr>Require := Require q AND NOT f, Allow := Allow q OR f\<rparr>))
              = set (buildCharacterListF fvs q)"
    by (simp add: set_buildCharacterListF rangeOrder_allowedCharsF [OF assms(3)]
        rangeOrder_allowedCharsF [OF assms(4)])
qed

theorem require_equals_allow_for_membership_witness:
  "rangeOrder fieldNamesAlphabets fieldNamesAlphabets \<and>
   rangeOrder charTypeByFlag charTypeByFlag \<and>
   FieldByName digitsRequired F_Digits = CIRequire \<and>
   set (buildCharacterList fieldNamesAlphabets (setField digitsRequired F_Digits CIAllow))
     = set (buildCharacterList fieldNamesAlphabets digitsRequired) \<and>
   (DigitsF, CTDigits) \<in> set charTypeByFlag \<and>
   Require digitsRequiredF AND DigitsF = DigitsF \<and>
   set (buildCharacterListF charTypeByFlag
          (digitsRequiredF\<lparr>Require := Require digitsRequiredF AND NOT DigitsF,
                           Allow := Allow digitsRequiredF OR DigitsF\<rparr>))
     = set (buildCharacterListF charTypeByFlag digitsRequiredF)"
proof -
  have a: "FieldByName digitsRequired F_Digits = CIRequire"
    by (simp add: digitsRequired_def)
  have b: "(DigitsF, CTDigits) \<in> set charTypeByFlag"
    by (simp add: charTypeByFlag_def)
  have c: "Require digitsRequiredF AND DigitsF = DigitsF"
    by (simp add: digitsRequiredF_def)
  show ?thesis
    using require_equals_allow_for_membership
      [OF rangeOrder_fieldNamesAlphabets rangeOrder_fieldNamesAlphabets
          rangeOrder_charTypeByFlag rangeOrder_charTypeByFlag,
       of digitsRequired F_Digits DigitsF CTDigits digitsRequiredF]
      rangeOrder_fieldNamesAlphabets rangeOrder_charTypeByFlag a b c
    by blast
qed

section \<open>The two encodings of a recipe\<close>

lemma corresponds_allowed:
  assumes "corresponds r q"
  shows "allowedCharsF q charTypeByFlag = allowedChars r fieldNamesAlphabets"
    and "excludedCharsF q charTypeByFlag = excludedChars r fieldNamesAlphabets"
  using assms
  by (simp_all add: corresponds_def classFlags_def allowedChars_def allowedCharsF_def
      excludedChars_def excludedCharsF_def fieldNamesAlphabets_def charTypeByFlag_def)

lemma corresponds_default: "corresponds (NewCharRecipe 8) (NewCharRecipeF 8)"
  by (simp add: corresponds_def classFlags_def NewCharRecipe_def NewCharRecipeF_def CI_defs Flag_defs)

text \<open>
  Claim C7. Corresponding recipes of the two variants, with the same length and extra
  strings, resolve to the same set of characters, whatever the order in which each
  variant visits its classes.
\<close>

theorem encodings_agree:
  assumes "rangeOrder fieldNamesAlphabets kvs" and "rangeOrder charTypeByFlag fvs"
    and "corresponds r q"
  shows "set (buildCharacterList kvs r) = set (buildCharacterListF fvs q)"
  using assms(3)
  by (simp add: set_buildCharacterList set_buildCharacterListF
      rangeOrder_allowedChars [OF assms(1)] rangeOrder_allowedCharsF [OF assms(2)]
      corresponds_allowed [OF assms(3)] corresponds_def)

theorem encodings_agree_witness:
  "rangeOrder fieldNamesAlphabets fieldNamesAlphabets \<and>
   rangeOrder charTypeByFlag charTypeByFlag \<and>
   corresponds (NewCharRecipe 8) (NewCharRecipeF 8) \<and>
   set (buildCharacterList fieldNamesAlphabets (NewCharRecipe 8))
     = set (buildCharacterListF charTypeByFlag (NewCharRecipeF 8))"
  using encodings_agree [OF rangeOrder_fieldNamesAlphabets rangeOrder_charTypeByFlag corresponds_default]
    rangeOrder_fieldNamesAlphabets rangeOrder_charTypeByFlag corresponds_default
  by blast

text \<open>
  The correspondence leaves out the flag of white space for a reason: a recipe of the
  second variant that allows white space resolves the space, which no recipe of the first
  variant with the same \<open>IncludeExtra\<close> does.
\<close>

lemma whiteSpace_flag_has_no_counterpart:
  assumes "rangeOrder fieldNamesAlphabets kvs" and "IncludeExtra r = IncludeExtraF whiteSpaceAllowed"
  shows "[32] \<in> set (buildCharacterListF charTypeByFlag whiteSpaceAllowed) \<and>
         [32] \<notin> set (buildCharacterList kvs r)"
proof -
  have "32 \<in> set CTWhiteSpace" by (simp add: CTWhiteSpace_def)
  from whitespace_in_no_field_class [OF this, of r] assms
  have "[32] \<notin> set (buildCharacterList kvs r)"
    by (auto simp: set_buildCharacterList rangeOrder_allowedChars whiteSpaceAllowed_def)
  moreover have "[32] \<in> set (buildCharacterListF charTypeByFlag whiteSpaceAllowed)"
    by (simp add: whiteSpaceAllowed_def eval_defs)
  ultimately show ?thesis by simp
qed

section \<open>Rounding to a float32\<close>

lemma roundEven_close: "\<bar>of_int (roundEven y) - y\<bar> \<le> 1 / 2"
  unfolding roundEven_def Let_def by (auto simp: abs_le_iff)

lemma roundEven_nonneg: "0 \<le> y \<Longrightarrow> 0 \<le> roundEven y"
  unfolding roundEven_def Let_def by (auto simp: zero_le_floor) 

lemma float32_zero: "float32 0 = 0"
  by (simp add: float32_def)

lemma float32_nonneg: "0 \<le> x \<Longrightarrow> 0 \<le> float32 x"
  by (simp add: float32_def Let_def roundEven_nonneg)

lemma float32_error:
  assumes "0 < x"
  shows "\<bar>float32 x - x\<bar> \<le> x / 2 ^ 24"
proof -
  define ulp :: real where "ulp = 2 powr (of_int \<lfloor>log 2 \<bar>x\<bar>\<rfloor> - 23)"
  have ulp: "0 < ulp" by (simp add: ulp_def)
  have f: "float32 x = ulp * of_int (roundEven (x / ulp))"
    using assms by (simp add: float32_def ulp_def Let_def)
  have "\<bar>float32 x - x\<bar> = ulp * \<bar>of_int (roundEven (x / ulp)) - x / ulp\<bar>"
  proof -
    have "float32 x - x = ulp * (of_int (roundEven (x / ulp)) - x / ulp)"
      using ulp by (simp add: f algebra_simps)
    then show ?thesis using ulp by (simp add: abs_mult)
  qed
  also have "\<dots> \<le> ulp * (1 / 2)"
    using roundEven_close [of "x / ulp"] ulp by (intro mult_left_mono) simp_all
  also have "\<dots> \<le> x / 2 ^ 24"
  proof -
    have "2 powr of_int \<lfloor>log 2 x\<rfloor> \<le> 2 powr log 2 x"
      by (intro powr_mono) simp_all
    also have "\<dots> = x" using assms by simp
    finally have "2 powr of_int \<lfloor>log 2 x\<rfloor> \<le> x" .
    moreover have "ulp = 2 powr of_int \<lfloor>log 2 x\<rfloor> / 2 ^ 23"
      using assms by (simp add: ulp_def powr_diff)
    ultimately show ?thesis by simp
  qed
  finally show ?thesis .
qed

lemma two_powr_int_rational: "2 powr real_of_int j \<in> \<rat>"
  by (simp add: powr_real_of_int)

lemma float32_rational: "float32 x \<in> \<rat>"
proof (cases "x = 0")
  case True
  then show ?thesis by (simp add: float32_def)
next
  case False
  have "(2::real) powr (of_int \<lfloor>log 2 \<bar>x\<bar>\<rfloor> - 23) \<in> \<rat>"
    using two_powr_int_rational [of "\<lfloor>log 2 \<bar>x\<bar>\<rfloor> - 23"] by simp
  then show ?thesis using False by (simp add: float32_def Let_def)
qed

lemma log_2_3_irrational: "log 2 3 \<notin> \<rat>"
proof
  assume "log 2 3 \<in> \<rat>"
  then obtain m n :: nat where n: "n \<noteq> 0" and mn: "\<bar>log 2 3\<bar> = real m / real n"
    by (rule Rats_abs_nat_div_natE)
  have pos: "0 < log 2 (3::real)" by simp
  with mn have "log 2 3 = real m / real n" by simp
  then have rm: "real m = real n * log 2 3" using n by (simp add: field_simps)
  have "(3::real) powr real n = (2 powr log 2 3) powr real n" by simp
  also have "\<dots> = 2 powr (log 2 3 * real n)" by (rule powr_powr)
  also have "\<dots> = 2 powr real m" using rm by (simp add: mult.commute)
  finally have "(2::real) ^ m = 3 ^ n" by (simp add: powr_realpow)
  then have "real ((2::nat) ^ m) = real (3 ^ n)" by simp
  then have e: "(2::nat) ^ m = 3 ^ n" by (simp only: of_nat_eq_iff)
  have "odd ((3::nat) ^ n)" by simp
  with e have "odd ((2::nat) ^ m)" by simp
  then have "m = 0" by (cases m) simp_all
  with e have "(3::nat) ^ n = 1" by simp
  with n show False by simp
qed

lemma float32_log_2_3: "float32 (log 2 3) \<noteq> log 2 3"
  using float32_rational [of "log 2 3"] log_2_3_irrational by metis

section \<open>Drawing the tokens\<close>

lemma class_chars_ascii:
  "(fname, s) \<in> set fieldNamesAlphabets \<Longrightarrow> c \<in> set s \<Longrightarrow> c \<le> utf8_MaxRune"
  "(f, ct) \<in> set charTypeByFlag \<Longrightarrow> c \<in> set ct \<Longrightarrow> c \<le> utf8_MaxRune"
  unfolding fieldNamesAlphabets_def charTypeByFlag_def utf8_MaxRune_def
  by (auto simp: CT_defs)

lemma length_le_of_runes:
  assumes "distinct chars" and "set chars \<subseteq> (\<lambda>c. [c]) ` {.. utf8_MaxRune}"
  shows "length chars < 2 ^ 32"
proof -
  have "length chars = card (set chars)" using assms(1) by (simp add: distinct_card)
  also have "\<dots> \<le> card ((\<lambda>c. [c]) ` {.. utf8_MaxRune})"
    by (rule card_mono) (use assms(2) in simp_all)
  also have "\<dots> \<le> card {.. utf8_MaxRune}" by (rule card_image_le) simp
  also have "\<dots> < 2 ^ 32" by (simp add: utf8_MaxRune_def)
  finally show ?thesis .
qed

lemma length_buildCharacterList:
  assumes "rangeOrder fieldNamesAlphabets kvs" and "validRunes (IncludeExtra r)"
  shows "length (buildCharacterList kvs r) < 2 ^ 32"
proof (rule length_le_of_runes [OF distinct_buildCharacterList])
  show "set (buildCharacterList kvs r) \<subseteq> (\<lambda>c. [c]) ` {.. utf8_MaxRune}"
  proof -
    have "allowedChars r kvs \<subseteq> {.. utf8_MaxRune}"
      using class_chars_ascii(1) assms(1)
      unfolding allowedChars_def rangeOrder_def by (auto split: if_splits)
    moreover have "set (IncludeExtra r) \<subseteq> {.. utf8_MaxRune}"
      using assms(2) unfolding validRunes_def by auto
    ultimately show ?thesis unfolding set_buildCharacterList by blast
  qed
qed

lemma length_buildCharacterListF:
  assumes "rangeOrder charTypeByFlag fvs" and "validRunes (IncludeExtraF q)"
  shows "length (buildCharacterListF fvs q) < 2 ^ 32"
proof (rule length_le_of_runes [OF distinct_buildCharacterListF])
  show "set (buildCharacterListF fvs q) \<subseteq> (\<lambda>c. [c]) ` {.. utf8_MaxRune}"
  proof -
    have "allowedCharsF q fvs \<subseteq> {.. utf8_MaxRune}"
      using class_chars_ascii(2) assms(1)
      unfolding allowedCharsF_def rangeOrder_def by (auto split: if_splits)
    moreover have "set (IncludeExtraF q) \<subseteq> {.. utf8_MaxRune}"
      using assms(2) unfolding validRunes_def by auto
    ultimately show ?thesis unfolding set_buildCharacterListF by blast
  qed
qed

lemma sampler_index:
  assumes "uniformIndex S" and "chars \<noteq> []" and "length chars < 2 ^ 32"
  shows "\<exists>k. S i (of_nat (length chars)) = Some k \<and> unat k < length chars"
proof -
  let ?n = "of_nat (length chars) :: 32 word"
  have u: "unat ?n = length chars" using assms(3) by (simp add: unat_of_nat)
  with assms(2) have "?n \<noteq> 0" by (metis length_0_conv unat_0)
  with assms(1) obtain k where "S i ?n = Some k" "k < ?n" unfolding uniformIndex_def by blast
  then show ?thesis using u by (auto simp: word_less_nat_alt)
qed

lemma drawTokens_ok:
  assumes "uniformIndex S" and "chars \<noteq> []" and "length chars < 2 ^ 32"
  shows "\<exists>toks. drawTokens S chars is = Inr toks \<and> length toks = length is \<and>
           (\<forall>j < length is. \<exists>k. S (is ! j) (of_nat (length chars)) = Some k \<and>
              unat k < length chars \<and>
              toks ! j = \<lparr>Value = chars ! unat k, Kind = AtomTokenType\<rparr>)"
proof (induction "is")
  case Nil
  then show ?case by simp
next
  case (Cons i "is")
  from sampler_index [OF assms, of i] obtain k where
    k: "S i (of_nat (length chars)) = Some k" "unat k < length chars" by blast
  from Cons.IH obtain toks where
    t: "drawTokens S chars is = Inr toks" "length toks = length is"
      "\<forall>j < length is. \<exists>k. S (is ! j) (of_nat (length chars)) = Some k \<and>
              unat k < length chars \<and>
              toks ! j = \<lparr>Value = chars ! unat k, Kind = AtomTokenType\<rparr>" by blast
  have "\<exists>k'. S ((i # is) ! j) (of_nat (length chars)) = Some k' \<and> unat k' < length chars \<and>
          (\<lparr>Value = chars ! unat k, Kind = AtomTokenType\<rparr> # toks) ! j
             = \<lparr>Value = chars ! unat k', Kind = AtomTokenType\<rparr>"
    if "j < length (i # is)" for j
  proof (cases j)
    case 0
    then show ?thesis using k by simp
  next
    case (Suc j')
    then show ?thesis using t(3) that by simp
  qed
  then show ?case using k t(1,2) by simp
qed

lemma drawnFrom_drawTokens:
  assumes "uniformIndex S" and "chars \<noteq> []" and "length chars < 2 ^ 32"
    and "\<And>toks. drawTokens S chars [0 ..< nat len] = Inr toks \<Longrightarrow> res = Inr \<lparr>Tokens = toks, EntropyBits = bits\<rparr>"
  shows "drawnFrom S len chars bits res"
proof -
  from drawTokens_ok [OF assms(1-3), of "[0 ..< nat len]"] obtain toks where
    t: "drawTokens S chars [0 ..< nat len] = Inr toks" "length toks = nat len"
      "\<forall>j < nat len. \<exists>k. S j (of_nat (length chars)) = Some k \<and>
              unat k < length chars \<and>
              toks ! j = \<lparr>Value = chars ! unat k, Kind = AtomTokenType\<rparr>" by auto
  have "Kind x = AtomTokenType \<and> Value x \<in> set chars" if "x \<in> set toks" for x
  proof -
    from that obtain j where "j < length toks" "x = toks ! j" by (auto simp: in_set_conv_nth)
    with t(2,3) show ?thesis by auto
  qed
  moreover from assms(4) t(1) have "res = Inr \<lparr>Tokens = toks, EntropyBits = bits\<rparr>" by simp
  ultimately show ?thesis using t(2,3) unfolding drawnFrom_def by simp
qed

lemma Generate_ok:
  assumes "rangeOrder fieldNamesAlphabets kvs" and "uniformIndex S" and "1 \<le> Length r"
    and "buildCharacterList kvs r \<noteq> []" and "validRunes (IncludeExtra r)"
  shows "drawnFrom S (Length r) (buildCharacterList kvs r) (Entropy kvs' r) (Generate kvs kvs' S r)"
  by (rule drawnFrom_drawTokens [OF assms(2,4) length_buildCharacterList [OF assms(1,5)]])
     (use assms(3) in \<open>simp add: Generate_def\<close>)

lemma GenerateF_ok:
  assumes "rangeOrder charTypeByFlag fvs" and "uniformIndex S" and "1 \<le> LengthF q"
    and "buildCharacterListF fvs q \<noteq> []" and "validRunes (IncludeExtraF q)"
  shows "drawnFrom S (LengthF q) (buildCharacterListF fvs q) (EntropyF fvs' q) (GenerateF fvs fvs' S q)"
  by (rule drawnFrom_drawTokens [OF assms(2,4) length_buildCharacterListF [OF assms(1,5)]])
     (use assms(3) in \<open>simp add: GenerateF_def\<close>)

lemma singleton_list:
  assumes "distinct xs" and "set xs = {x}"
  shows "xs = [x]"
proof (cases xs)
  case Nil
  with assms(2) show ?thesis by simp
next
  case (Cons y ys)
  with assms have "y = x" "set ys \<subseteq> {x}" "x \<notin> set ys" by auto
  then have "ys = []" by (cases ys) auto
  with Cons \<open>y = x\<close> show ?thesis by simp
qed

lemma euro_alphabet:
  assumes "rangeOrder fieldNamesAlphabets kvs"
  shows "buildCharacterList kvs euroRecipe = [[8364]]"
proof (rule singleton_list [OF distinct_buildCharacterList])
  have "allowedChars euroRecipe fieldNamesAlphabets = {}"
    by (simp add: allowedChars_def euroRecipe_def fieldNamesAlphabets_def CI_defs)
  moreover have "excludedChars euroRecipe fieldNamesAlphabets = {}"
    by (simp add: excludedChars_def euroRecipe_def fieldNamesAlphabets_def CI_defs)
  ultimately show "set (buildCharacterList kvs euroRecipe) = {[8364]}"
    by (simp add: set_buildCharacterList rangeOrder_allowedChars [OF assms] euroRecipe_def)
qed

lemma uniformIndex_bound_1:
  assumes "uniformIndex S"
  shows "S i 1 = Some 0"
proof -
  from assms obtain k where "S i 1 = Some k" "k < 1"
    unfolding uniformIndex_def by (metis one_neq_zero)
  then show ?thesis by (simp add: word_less_1)
qed

lemma Generate_euro:
  assumes "rangeOrder fieldNamesAlphabets kvs" and "rangeOrder fieldNamesAlphabets kvs'"
    and "uniformIndex S"
  shows "Generate kvs kvs' S euroRecipe =
           Inr \<lparr>Tokens = replicate 4 \<lparr>Value = [8364], Kind = AtomTokenType\<rparr>, EntropyBits = 0\<rparr>"
proof -
  have l: "Length euroRecipe = 4" by (simp add: euroRecipe_def)
  have u: "[0 ..< 4] = [0, 1, 2, 3::nat]" by (simp add: upt_rec)
  have r: "replicate 4 x = [x, x, x, x]" for x :: Token by (simp add: numeral_eq_Suc)
  show ?thesis
    by (simp add: Generate_def Entropy_def entropySimple_def float32_zero
        euro_alphabet [OF assms(1)] euro_alphabet [OF assms(2)] l u r
        uniformIndex_bound_1 [OF assms(3)])
qed

lemma uniformIndex_zero: "uniformIndex (\<lambda>i n. Some 0)"
  by (simp add: uniformIndex_def word_neq_0_conv)

text \<open>
  Claim C8. Let the sampler keep its contract (an index below every positive bound). For
  a recipe with length at least 1 and a non-empty resolved alphabet, whose \<open>IncludeExtra\<close>
  is a valid string, \<^verbatim>\<open>Generate\<close> returns a password with exactly length tokens; the
  \<open>i\<close>-th token is an atom holding the character of the alphabet at the index of the
  \<open>i\<close>-th draw, so the tokens stand in the order of the draws and nothing else is done
  to them; the entropy is that of \<^verbatim>\<open>Entropy\<close> for the recipe. This holds in both
  variants. The recipe of length 4 with every class unstated and \<open>IncludeExtra\<close> the euro
  sign always gives four euro signs with entropy 0.
\<close>

theorem generate_draws_atoms_in_order:
  assumes "uniformIndex S"
  shows "(rangeOrder fieldNamesAlphabets kvs \<and> 1 \<le> Length r \<and>
          buildCharacterList kvs r \<noteq> [] \<and> validRunes (IncludeExtra r) \<longrightarrow>
            drawnFrom S (Length r) (buildCharacterList kvs r) (Entropy kvs' r)
              (Generate kvs kvs' S r)) \<and>
         (rangeOrder charTypeByFlag fvs \<and> 1 \<le> LengthF q \<and>
          buildCharacterListF fvs q \<noteq> [] \<and> validRunes (IncludeExtraF q) \<longrightarrow>
            drawnFrom S (LengthF q) (buildCharacterListF fvs q) (EntropyF fvs' q)
              (GenerateF fvs fvs' S q)) \<and>
         (rangeOrder fieldNamesAlphabets kvs \<and> rangeOrder fieldNamesAlphabets kvs' \<longrightarrow>
            Generate kvs kvs' S euroRecipe =
              Inr \<lparr>Tokens = replicate 4 \<lparr>Value = [8364], Kind = AtomTokenType\<rparr>,
                   EntropyBits = 0\<rparr>)"
  using assms by (simp add: Generate_ok GenerateF_ok Generate_euro)

theorem generate_draws_atoms_in_order_witness:
  "uniformIndex (\<lambda>i n. Some 0) \<and>
   rangeOrder fieldNamesAlphabets fieldNamesAlphabets \<and>
   rangeOrder charTypeByFlag charTypeByFlag \<and>
   1 \<le> Length euroRecipe \<and>
   buildCharacterList fieldNamesAlphabets euroRecipe \<noteq> [] \<and>
   validRunes (IncludeExtra euroRecipe) \<and>
   drawnFrom (\<lambda>i n. Some 0) (Length euroRecipe)
     (buildCharacterList fieldNamesAlphabets euroRecipe)
     (Entropy fieldNamesAlphabets euroRecipe)
     (Generate fieldNamesAlphabets fieldNamesAlphabets (\<lambda>i n. Some 0) euroRecipe) \<and>
   1 \<le> LengthF euroRecipeF \<and>
   buildCharacterListF charTypeByFlag euroRecipeF \<noteq> [] \<and>
   validRunes (IncludeExtraF euroRecipeF) \<and>
   drawnFrom (\<lambda>i n. Some 0) (LengthF euroRecipeF)
     (buildCharacterListF charTypeByFlag euroRecipeF)
     (EntropyF charTypeByFlag euroRecipeF)
     (GenerateF charTypeByFlag charTypeByFlag (\<lambda>i n. Some 0) euroRecipeF) \<and>
   Generate fieldNamesAlphabets fieldNamesAlphabets (\<lambda>i n. Some 0) euroRecipe =
     Inr \<lparr>Tokens = replicate 4 \<lparr>Value = [8364], Kind = AtomTokenType\<rparr>, EntropyBits = 0\<rparr>"
proof -
  have a: "1 \<le> Length euroRecipe" "validRunes (IncludeExtra euroRecipe)"
    "1 \<le> LengthF euroRecipeF" "validRunes (IncludeExtraF euroRecipeF)"
    by (simp_all add: euroRecipe_def euroRecipeF_def validRunes_def utf8_MaxRune_def)
  have b: "buildCharacterList fieldNamesAlphabets euroRecipe \<noteq> []"
    by (simp add: euro_alphabet [OF rangeOrder_fieldNamesAlphabets])
  have c: "buildCharacterListF charTypeByFlag euroRecipeF \<noteq> []"
    by (simp add: euroRecipeF_def eval_defs)
  show ?thesis
    using generate_draws_atoms_in_order [OF uniformIndex_zero,
        of fieldNamesAlphabets euroRecipe fieldNamesAlphabets
           charTypeByFlag euroRecipeF charTypeByFlag]
      uniformIndex_zero rangeOrder_fieldNamesAlphabets rangeOrder_charTypeByFlag a b c
    by blast
qed

section \<open>The entropy\<close>

lemma length_buildCharacterList_order:
  assumes "rangeOrder fieldNamesAlphabets kvs" and "rangeOrder fieldNamesAlphabets kvs'"
  shows "length (buildCharacterList kvs' r) = length (buildCharacterList kvs r)"
proof -
  have "set (buildCharacterList kvs' r) = set (buildCharacterList kvs r)"
    by (simp add: set_buildCharacterList rangeOrder_allowedChars [OF assms(1)]
        rangeOrder_allowedChars [OF assms(2)])
  then show ?thesis
    by (metis distinct_buildCharacterList distinct_card)
qed

lemma length_buildCharacterListF_order:
  assumes "rangeOrder charTypeByFlag fvs" and "rangeOrder charTypeByFlag fvs'"
  shows "length (buildCharacterListF fvs' q) = length (buildCharacterListF fvs q)"
proof -
  have "set (buildCharacterListF fvs' q) = set (buildCharacterListF fvs q)"
    by (simp add: set_buildCharacterListF rangeOrder_allowedCharsF [OF assms(1)]
        rangeOrder_allowedCharsF [OF assms(2)])
  then show ?thesis
    by (metis distinct_buildCharacterListF distinct_card)
qed

lemma entropySimple_nonneg: "0 \<le> len \<Longrightarrow> 0 < n \<Longrightarrow> 0 \<le> entropySimple len n"
  by (simp add: entropySimple_def)

lemma float32_near:
  assumes "0 \<le> x"
  shows "\<bar>float32 x - x\<bar> \<le> x / 2 ^ 24"
proof (cases "x = 0")
  case True
  then show ?thesis by (simp add: float32_zero)
next
  case False
  with assms have "0 < x" by simp
  then show ?thesis by (rule float32_error)
qed

lemma abcRecipe_alphabet:
  "buildCharacterList fieldNamesAlphabets abcRecipe = [[97], [98], [99]]"
  by (simp add: abcRecipe_def eval_defs)

text \<open>
  Claim C3, as it stands, fails on the value: \<^verbatim>\<open>Entropy\<close> returns a \<^verbatim>\<open>float32\<close>,
  which is a rational number, and \<open>L \<times> log2(n)\<close> mostly is not one. The recipe of length
  1 with the alphabet \<open>abc\<close> has the entropy \<open>float32(log2(3))\<close>, which is not
  \<open>1 \<times> log2(3)\<close>.
\<close>

theorem entropy_is_a_float32:
  "Length abcRecipe = 1 \<and>
   buildCharacterList fieldNamesAlphabets abcRecipe = [[97], [98], [99]] \<and>
   Entropy fieldNamesAlphabets abcRecipe
     \<noteq> real_of_int (Length abcRecipe)
         * log 2 (real (length (buildCharacterList fieldNamesAlphabets abcRecipe)))"
proof -
  have l: "Length abcRecipe = 1" by (simp add: abcRecipe_def)
  show ?thesis
    using float32_log_2_3
    by (simp add: Entropy_def entropySimple_def abcRecipe_alphabet l)
qed

text \<open>
  Claim C3, amended. For a recipe of length \<open>L\<close>, at least 1 as a Recipe has it, whose
  resolved alphabet is non-empty and has \<open>n\<close> characters, in whatever order the classes
  are visited, the entropy is \<open>L \<times> log2(n)\<close>, the formula without regard to Require,
  rounded to a \<^verbatim>\<open>float32\<close>: it differs from \<open>L \<times> log2(n)\<close> by at most that value
  over \<open>2 ^ 24\<close>, and it is non-negative. Both variants.
\<close>

theorem entropy_naive_formula:
  assumes "rangeOrder fieldNamesAlphabets kvs" and "rangeOrder fieldNamesAlphabets kvs'"
    and "rangeOrder charTypeByFlag fvs" and "rangeOrder charTypeByFlag fvs'"
  shows "(1 \<le> Length r \<and> buildCharacterList kvs r \<noteq> [] \<longrightarrow>
            Entropy kvs' r
              = float32 (real_of_int (Length r)
                         * log 2 (real (length (buildCharacterList kvs r)))) \<and>
            \<bar>Entropy kvs' r
               - real_of_int (Length r) * log 2 (real (length (buildCharacterList kvs r)))\<bar>
              \<le> real_of_int (Length r) * log 2 (real (length (buildCharacterList kvs r)))
                  / 2 ^ 24 \<and>
            0 \<le> Entropy kvs' r) \<and>
         (1 \<le> LengthF q \<and> buildCharacterListF fvs q \<noteq> [] \<longrightarrow>
            EntropyF fvs' q
              = float32 (real_of_int (LengthF q)
                         * log 2 (real (length (buildCharacterListF fvs q)))) \<and>
            \<bar>EntropyF fvs' q
               - real_of_int (LengthF q) * log 2 (real (length (buildCharacterListF fvs q)))\<bar>
              \<le> real_of_int (LengthF q) * log 2 (real (length (buildCharacterListF fvs q)))
                  / 2 ^ 24 \<and>
            0 \<le> EntropyF fvs' q)"
proof -
  let ?x = "real_of_int (Length r) * log 2 (real (length (buildCharacterList kvs r)))"
  let ?y = "real_of_int (LengthF q) * log 2 (real (length (buildCharacterListF fvs q)))"
  have a: "Entropy kvs' r = float32 ?x"
    by (simp add: Entropy_def entropySimple_def length_buildCharacterList_order [OF assms(1,2)])
  have b: "EntropyF fvs' q = float32 ?y"
    by (simp add: EntropyF_def entropySimple_def
        length_buildCharacterListF_order [OF assms(3,4)])
  have x: "0 \<le> ?x" if "1 \<le> Length r \<and> buildCharacterList kvs r \<noteq> []"
    using that entropySimple_nonneg [of "Length r" "length (buildCharacterList kvs r)"]
    by (simp add: entropySimple_def)
  have y: "0 \<le> ?y" if "1 \<le> LengthF q \<and> buildCharacterListF fvs q \<noteq> []"
    using that entropySimple_nonneg [of "LengthF q" "length (buildCharacterListF fvs q)"]
    by (simp add: entropySimple_def)
  show ?thesis
    unfolding a b
    using float32_near [of ?x] float32_nonneg [of ?x] float32_near [of ?y]
      float32_nonneg [of ?y] x y
    by blast
qed

theorem entropy_naive_formula_witness:
  "rangeOrder fieldNamesAlphabets fieldNamesAlphabets \<and>
   rangeOrder charTypeByFlag charTypeByFlag \<and>
   1 \<le> Length (NewCharRecipe 8) \<and> 1 \<le> LengthF (NewCharRecipeF 8) \<and>
   buildCharacterList fieldNamesAlphabets (NewCharRecipe 8) \<noteq> [] \<and>
   buildCharacterListF charTypeByFlag (NewCharRecipeF 8) \<noteq> [] \<and>
   Entropy fieldNamesAlphabets (NewCharRecipe 8) = float32 (8 * log 2 74) \<and>
   0 \<le> Entropy fieldNamesAlphabets (NewCharRecipe 8) \<and>
   EntropyF charTypeByFlag (NewCharRecipeF 8) = float32 (8 * log 2 74) \<and>
   0 \<le> EntropyF charTypeByFlag (NewCharRecipeF 8)"
proof -
  have a: "length (buildCharacterList fieldNamesAlphabets (NewCharRecipe 8)) = 74"
    "length (buildCharacterListF charTypeByFlag (NewCharRecipeF 8)) = 74"
    by (simp_all add: eval_defs)
  have b: "Length (NewCharRecipe 8) = 8" "LengthF (NewCharRecipeF 8) = 8"
    by (simp_all add: NewCharRecipe_def NewCharRecipeF_def)
  have c: "buildCharacterList fieldNamesAlphabets (NewCharRecipe 8) \<noteq> []"
    "buildCharacterListF charTypeByFlag (NewCharRecipeF 8) \<noteq> []"
    using a by auto
  show ?thesis
    using entropy_naive_formula [OF rangeOrder_fieldNamesAlphabets rangeOrder_fieldNamesAlphabets
        rangeOrder_charTypeByFlag rangeOrder_charTypeByFlag, of "NewCharRecipe 8" "NewCharRecipeF 8"]
      rangeOrder_fieldNamesAlphabets rangeOrder_charTypeByFlag c
    by (simp add: a b)
qed

section \<open>The empty alphabet\<close>

lemma drawTokens_empty: "is \<noteq> [] \<Longrightarrow> drawTokens S [] is = Inl Panic"
  by (cases "is") (simp_all split: option.splits)

lemma Generate_empty:
  "1 \<le> Length r \<Longrightarrow> buildCharacterList kvs r = [] \<Longrightarrow> Generate kvs kvs' S r = Inl Panic"
  by (simp add: Generate_def drawTokens_empty)

lemma GenerateF_empty:
  "1 \<le> LengthF q \<Longrightarrow> buildCharacterListF fvs q = [] \<Longrightarrow> GenerateF fvs fvs' S q = Inl Panic"
  by (simp add: GenerateF_def drawTokens_empty)

lemma onlyAmbiguous_empty: "buildCharacterList fieldNamesAlphabets onlyAmbiguous = []"
  by (simp add: onlyAmbiguous_def eval_defs)

lemma digitsAllowedExcluded_empty:
  "buildCharacterListF charTypeByFlag digitsAllowedExcluded = []"
  by (simp add: digitsAllowedExcluded_def eval_defs)

text \<open>
  Claim C1 is not met by the code: \<^verbatim>\<open>Generate\<close> checks the length and then indexes the
  alphabet without checking that it has a character. On the spec's own example, the
  digits both allowed and excluded, and on the recipe that allows the ambiguous characters
  and excludes the letters and digits, the alphabet is empty and \<^verbatim>\<open>Generate\<close> panics,
  whatever the sampler returns, where the claim has it return an error.
\<close>

theorem empty_alphabet_panics:
  "buildCharacterListF charTypeByFlag digitsAllowedExcluded = [] \<and>
   GenerateF charTypeByFlag charTypeByFlag S digitsAllowedExcluded = Inl Panic \<and>
   buildCharacterList fieldNamesAlphabets onlyAmbiguous = [] \<and>
   Generate fieldNamesAlphabets fieldNamesAlphabets S onlyAmbiguous = Inl Panic"
proof -
  have "1 \<le> Length onlyAmbiguous" "1 \<le> LengthF digitsAllowedExcluded"
    by (simp_all add: onlyAmbiguous_def digitsAllowedExcluded_def)
  then show ?thesis
    by (simp add: Generate_empty GenerateF_empty onlyAmbiguous_empty
        digitsAllowedExcluded_empty)
qed

section \<open>Require is not enforced\<close>

text \<open>
  Claim C4 is not met by the code: \<^verbatim>\<open>CIRequire\<close> falls through to \<^verbatim>\<open>CIAllow\<close> and
  nothing places a character of a required class. With the upper-case letters allowed, a
  digit required and length 1, a draw of index 0 gives the password \<open>A\<close>, which has no
  digit.
\<close>

theorem require_not_enforced:
  "Digits upperRequireDigit = CIRequire \<and>
   Generate fieldNamesAlphabets fieldNamesAlphabets (\<lambda>i n. Some 0) upperRequireDigit =
     Inr \<lparr>Tokens = [\<lparr>Value = [65], Kind = AtomTokenType\<rparr>],
          EntropyBits = float32 (log 2 36)\<rparr> \<and>
   65 \<notin> set CTDigits"
proof -
  have a: "buildCharacterList fieldNamesAlphabets upperRequireDigit =
             strings_Split_empty_sep (CTUpper @ CTDigits)"
    by (simp add: upperRequireDigit_def eval_defs)
  have b: "length (strings_Split_empty_sep (CTUpper @ CTDigits)) = 36"
    "strings_Split_empty_sep (CTUpper @ CTDigits) ! 0 = [65]"
    "strings_Split_empty_sep (CTUpper @ CTDigits) \<noteq> []"
    by (simp_all add: strings_Split_empty_sep_def CT_defs)
  have c: "Length upperRequireDigit = 1" "Digits upperRequireDigit = CIRequire"
    by (simp_all add: upperRequireDigit_def)
  have d: "65 \<notin> set CTDigits" by (simp add: CT_defs)
  show ?thesis
    by (simp add: Generate_def Entropy_def entropySimple_def Let_def a b c d)
qed

end
